theory Spec2Isabelle
  imports Main "HOL-Library.AList"
begin

section \<open>Texts, blocks and errors\<close>

text \<open>
  A JavaScript string is modelled by the list of its code points, which is what a regular
  expression with the \<open>u\<close> flag iterates over. Identifiers, URLs of pages, cursors and
  timestamps are opaque to the program and are plain strings.
\<close>

type_synonym ustring = "nat list"

definition lit :: "string \<Rightarrow> ustring" where
  "lit s = map of_char s"

datatype error = TypeError | RemoteError | SqliteError

record span =
  plain_text :: ustring

text \<open>
  The payload \<open>block[block.type]\<close> of a block: an optional \<open>rich_text\<close> array and the string
  fields the \<open>switch\<close> of \<open>getTextFromBlock\<close> reads. A block whose payload is missing has
  \<open>content = None\<close>; reading a field of it is a \<open>TypeError\<close> in JavaScript.
\<close>

record payload =
  rich_text :: "span list option"
  url :: ustring
  title :: ustring
  expression :: ustring

record block =
  block_id :: string
  block_type :: string
  has_children :: bool
  content :: "payload option"

section \<open>Text of a block\<close>

definition getPlainTextFromRichText :: "span list \<Rightarrow> ustring" where
  "getPlainTextFromRichText richText = concat (map plain_text richText)"

definition field :: "(payload \<Rightarrow> ustring) \<Rightarrow> payload option \<Rightarrow> error + ustring" where
  "field f pl = (case pl of None \<Rightarrow> Inl TypeError | Some p \<Rightarrow> Inr (f p))"

definition unsupported_marker :: ustring where
  "unsupported_marker = lit ''[Unsupported or non-text block]''"

definition children_suffix :: ustring where
  "children_suffix = lit '' (Has children)''"

definition recognized_types :: "string list" where
  "recognized_types = [''bookmark'', ''child_page'', ''embed'', ''video'', ''file'', ''image'',
     ''pdf'', ''equation'', ''link_preview'']"

text \<open>The \<open>switch (block.type)\<close> of \<open>getTextFromBlock\<close>, in the order of its cases.\<close>

definition switch_type :: "string \<Rightarrow> payload option \<Rightarrow> error + ustring" where
  "switch_type ty pl =
     (if ty = ''bookmark'' then field url pl
      else if ty = ''child_page'' then
        (case field title pl of Inl e \<Rightarrow> Inl e
         | Inr t \<Rightarrow> Inr (lit ''[Sub-page: '' @ t @ lit '']''))
      else if ty = ''embed'' \<or> ty = ''video'' \<or> ty = ''file'' \<or> ty = ''image'' \<or> ty = ''pdf''
        then Inr (lit ''[Media Block]'')
      else if ty = ''equation'' then field expression pl
      else if ty = ''link_preview'' then field url pl
      else Inr unsupported_marker)"

definition has_rich_text :: "block \<Rightarrow> bool" where
  "has_rich_text b = (case content b of None \<Rightarrow> False | Some p \<Rightarrow> rich_text p \<noteq> None)"

definition getTextFromBlock :: "block \<Rightarrow> error + ustring" where
  "getTextFromBlock b =
     (case (case content b of
              None \<Rightarrow> switch_type (block_type b) None
            | Some p \<Rightarrow>
                (case rich_text p of
                   Some rt \<Rightarrow> Inr (getPlainTextFromRichText rt)
                 | None \<Rightarrow> switch_type (block_type b) (Some p)))
      of Inl e \<Rightarrow> Inl e
       | Inr t \<Rightarrow> Inr (if has_children b then t @ children_suffix else t))"

section \<open>Counting words\<close>

text \<open>
  The character class \<open>[\p{L}\p{N}\p{Emoji_Presentation}]\<close>. Below 128 the Unicode tables
  give the Latin letters and the decimal digits (no ASCII code point has the property
  Emoji_Presentation); from 128 on, the table of the JavaScript engine is the parameter
  \<open>uc\<close>.
\<close>

definition word_char :: "(nat \<Rightarrow> bool) \<Rightarrow> nat \<Rightarrow> bool" where
  "word_char uc c =
     (if c < 128 then (65 \<le> c \<and> c \<le> 90) \<or> (97 \<le> c \<and> c \<le> 122) \<or> (48 \<le> c \<and> c \<le> 57)
      else uc c)"

text \<open>
  \<open>text.match(/[...]+/gu)\<close>: the matches of a greedy \<open>+\<close> under the global flag are the
  maximal runs of class members, from left to right; \<open>match\<close> returns \<open>null\<close> when there
  is none.
\<close>

function runs :: "('a \<Rightarrow> bool) \<Rightarrow> 'a list \<Rightarrow> 'a list list" where
  "runs P [] = []"
| "runs P (c # cs) =
     (if P c then (c # takeWhile P cs) # runs P (dropWhile P cs) else runs P cs)"
  by pat_completeness auto
termination
  by (relation "measure (\<lambda>(P, cs). length cs)") (auto simp: length_dropWhile_le less_Suc_eq_le)

definition match_words :: "(nat \<Rightarrow> bool) \<Rightarrow> ustring \<Rightarrow> ustring list option" where
  "match_words uc t = (case runs (word_char uc) t of [] \<Rightarrow> None | r # rs \<Rightarrow> Some (r # rs))"

text \<open>\<open>countWordsInText\<close>; \<open>None\<close> is an absent text (\<open>null\<close> or \<open>undefined\<close>).\<close>

definition countWordsInText :: "(nat \<Rightarrow> bool) \<Rightarrow> ustring option \<Rightarrow> nat" where
  "countWordsInText uc txt =
     (case txt of None \<Rightarrow> 0
      | Some t \<Rightarrow>
          if t = [] then 0
          else (case match_words uc t of None \<Rightarrow> 0 | Some matches \<Rightarrow> length matches))"

fun countWordsInBlocks_from :: "(nat \<Rightarrow> bool) \<Rightarrow> nat \<Rightarrow> block list \<Rightarrow> error + nat" where
  "countWordsInBlocks_from uc totalWords [] = Inr totalWords"
| "countWordsInBlocks_from uc totalWords (b # bs) =
     (case getTextFromBlock b of
        Inl e \<Rightarrow> Inl e
      | Inr t \<Rightarrow> countWordsInBlocks_from uc (totalWords + countWordsInText uc (Some t)) bs)"

definition countWordsInBlocks :: "(nat \<Rightarrow> bool) \<Rightarrow> block list \<Rightarrow> error + nat" where
  "countWordsInBlocks uc blocks = countWordsInBlocks_from uc 0 blocks"

text \<open>
  The white space of ECMAScript (\<open>WhiteSpace\<close> and \<open>LineTerminator\<close>, the class \<open>\s\<close>):
  tab, line feed, vertical tab, form feed, carriage return, space, no-break space,
  U+1680, U+2000 to U+200A, U+2028, U+2029, U+202F, U+205F, U+3000 and U+FEFF.
\<close>

definition white_space :: "nat \<Rightarrow> bool" where
  "white_space c =
     ((9 \<le> c \<and> c \<le> 13) \<or> c = 32 \<or> c = 160 \<or> c = 5760 \<or> (8192 \<le> c \<and> c \<le> 8202) \<or>
      c = 8232 \<or> c = 8233 \<or> c = 8239 \<or> c = 8287 \<or> c = 12288 \<or> c = 65279)"

text \<open>The same block with its \<open>has_children\<close> flag cleared, to compare word counts with.\<close>

definition childless :: "block \<Rightarrow> block" where
  "childless b = b\<lparr>has_children := False\<rparr>"

section \<open>The remote API, the two databases and the state of a run\<close>

record page =
  page_id :: string
  page_last_edited_time :: string
  page_url :: string

record query_response =
  results :: "page list"
  has_more :: bool
  next_cursor :: "string option"

text \<open>A row of table \<open>pages\<close> of \<open>notion.db\<close>, without its primary key \<open>id\<close>.\<close>

record row =
  last_edited_time :: string
  word_count :: nat

datatype statement = SelectTime string | Upsert string | SelectSum | InsertHistory

text \<open>
  Everything outside the program is a world of type \<open>'w\<close> and the functions of an
  environment on it. The Notion client: \<open>databases.query\<close> for the configured database,
  \<open>blocks.children.list\<close> driven to exhaustion by \<open>iteratePaginatedAPI\<close>,
  \<open>pages.update\<close> of the property \<open>Word Count\<close> (the only call that changes the world) and
  \<open>pages.retrieve\<close>. \<open>sqlite_error\<close> tells whether SQLite reports an error for a
  statement. \<open>sqlite_done w st i\<close> tells whether, when the awaited statement \<open>st\<close> runs,
  SQLite has already completed the upsert at position \<open>i\<close> of the queue of upserts that
  were issued and not awaited. \<open>date_value\<close> is the time value of \<open>new Date(s)\<close> for a
  non-empty string, \<open>None\<close> for an invalid date; \<open>unicode_class\<close> is the table of the
  tokenizer.
\<close>

record 'w env =
  databases_query :: "'w \<Rightarrow> string option \<Rightarrow> error + query_response"
  blocks_children_list :: "'w \<Rightarrow> string \<Rightarrow> error + block list"
  pages_update :: "'w \<Rightarrow> string \<Rightarrow> nat \<Rightarrow> error option \<times> 'w"
  pages_retrieve :: "'w \<Rightarrow> string \<Rightarrow> error + page"
  sqlite_error :: "'w \<Rightarrow> statement \<Rightarrow> bool"
  sqlite_done :: "'w \<Rightarrow> statement \<Rightarrow> nat \<Rightarrow> bool"
  date_value :: "string \<Rightarrow> int option"
  unicode_class :: "nat \<Rightarrow> bool"

datatype event =
    AlreadyCrawled string
  | FailedToUpdateWordCount string
  | WordCountUpdated string
  | FailedToUpdateSQLite string
  | TotalWordCountStored nat
  | FailedToProcess error

text \<open>
  An upsert that \<open>updateSQLiteDatabase\<close> has handed to \<open>db.run\<close>: the key, the row, and
  whether SQLite will report an error for it.
\<close>

record upsert =
  upsert_id :: string
  upsert_row :: row
  upsert_fails :: bool

text \<open>
  The state: the world, table \<open>pages\<close> as an association list on its key, the upserts
  issued on \<open>notion.db\<close> and not yet completed (\<open>db.run\<close> is not awaited and the
  database is not serialized, so a later statement can run before them), the
  \<open>total_words\<close> column of table \<open>word_count_history\<close> in insertion order (its
  \<open>timestamp\<close> column is filled by SQLite from the clock and is left out), and the
  console.
\<close>

record 'w state =
  world :: 'w
  pages_tbl :: "(string \<times> row) list"
  pending :: "upsert list"
  word_count_history :: "nat list"
  console :: "event list"

datatype 'a result = Returned 'a | Thrown error | Exhausted

datatype 's outcome = Done 's | Threw error 's | OutOfFuel

definition console_log :: "event \<Rightarrow> 'w state \<Rightarrow> 'w state" where
  "console_log ev s = s\<lparr>console := console s @ [ev]\<rparr>"

section \<open>Operations on the databases\<close>

definition getStoredLastEditedTime :: "'w env \<Rightarrow> 'w state \<Rightarrow> string \<Rightarrow> error + string option" where
  "getStoredLastEditedTime env s pageId =
     (if sqlite_error env (world s) (SelectTime pageId) then Inl SqliteError
      else Inr (case map_of (pages_tbl s) pageId of
                  None \<Rightarrow> None
                | Some r \<Rightarrow> Some (last_edited_time r)))"

text \<open>
  \<open>updateSQLiteDatabase\<close> calls \<open>db.run\<close> and returns at once: the upsert is only put in
  the queue. Its callback runs when SQLite completes it: \<open>apply_upsert\<close> writes the row
  (insert, or replace on the key) or logs the error.
\<close>

definition updateSQLiteDatabase :: "'w env \<Rightarrow> 'w state \<Rightarrow> string \<Rightarrow> string \<Rightarrow> nat \<Rightarrow> 'w state" where
  "updateSQLiteDatabase env s pageId lastEditedTime wordCount =
     s\<lparr>pending := pending s @
          [\<lparr>upsert_id = pageId,
            upsert_row = \<lparr>last_edited_time = lastEditedTime, word_count = wordCount\<rparr>,
            upsert_fails = sqlite_error env (world s) (Upsert pageId)\<rparr>]\<rparr>"

definition apply_upsert :: "upsert \<Rightarrow> 'w state \<Rightarrow> 'w state" where
  "apply_upsert u s =
     (if upsert_fails u then console_log (FailedToUpdateSQLite (upsert_id u)) s
      else s\<lparr>pages_tbl := AList.update (upsert_id u) (upsert_row u) (pages_tbl s)\<rparr>)"

text \<open>
  The state in which an awaited statement \<open>st\<close> on \<open>notion.db\<close> runs: the queued upserts
  that SQLite has completed by then are applied, in the order they were issued, and the
  others stay in the queue. The program reads table \<open>pages\<close> only in its awaited
  statements, so nothing else depends on when an upsert completes.
\<close>

definition completed_by :: "'w env \<Rightarrow> 'w \<Rightarrow> statement \<Rightarrow> upsert list \<Rightarrow> upsert list" where
  "completed_by env w st us =
     map snd (filter (\<lambda>iu. sqlite_done env w st (fst iu)) (enumerate 0 us))"

definition still_queued :: "'w env \<Rightarrow> 'w \<Rightarrow> statement \<Rightarrow> upsert list \<Rightarrow> upsert list" where
  "still_queued env w st us =
     map snd (filter (\<lambda>iu. \<not> sqlite_done env w st (fst iu)) (enumerate 0 us))"

definition complete :: "'w env \<Rightarrow> statement \<Rightarrow> 'w state \<Rightarrow> 'w state" where
  "complete env st s =
     fold apply_upsert (completed_by env (world s) st (pending s))
       (s\<lparr>pending := still_queued env (world s) st (pending s)\<rparr>)"

text \<open>The state once every queued upsert has completed.\<close>

definition settled :: "'w state \<Rightarrow> 'w state" where
  "settled s = fold apply_upsert (pending s) (s\<lparr>pending := []\<rparr>)"

text \<open>\<open>SELECT SUM(word_count)\<close> is \<open>NULL\<close> on an empty table; \<open>row.total || 0\<close> maps it to 0.\<close>

definition select_sum :: "(string \<times> row) list \<Rightarrow> nat option" where
  "select_sum tbl = (if tbl = [] then None else Some (sum_list (map (\<lambda>kv. word_count (snd kv)) tbl)))"

definition getTotalWordCount :: "'w env \<Rightarrow> 'w state \<Rightarrow> error + nat" where
  "getTotalWordCount env s =
     (if sqlite_error env (world s) SelectSum then Inl SqliteError
      else Inr (case select_sum (pages_tbl s) of
                  None \<Rightarrow> 0
                | Some t \<Rightarrow> if t = 0 then 0 else t))"

definition storeTotalWordCount :: "'w env \<Rightarrow> 'w state \<Rightarrow> nat \<Rightarrow> error + 'w state" where
  "storeTotalWordCount env s totalWords =
     (if sqlite_error env (world s) InsertHistory then Inl SqliteError
      else Inr (s\<lparr>word_count_history := word_count_history s @ [totalWords]\<rparr>))"

section \<open>Walking the block tree\<close>

text \<open>
  \<open>retrieveBlockChildren\<close> with the body of its \<open>for await\<close> loop, \<open>walk_blocks\<close>, over
  the blocks the iterator yields; \<open>blocks\<close> is the array being filled. A listing
  that fails on a later page of the iterator throws, and the array filled so far is lost
  with it, so a listing is either an error or all of its blocks. The recursion follows
  the remote data and need not end, so it carries a bound on its depth.
\<close>

fun retrieveBlockChildren :: "'w env \<Rightarrow> 'w \<Rightarrow> nat \<Rightarrow> string \<Rightarrow> block list result"
  and walk_blocks :: "'w env \<Rightarrow> 'w \<Rightarrow> nat \<Rightarrow> block list \<Rightarrow> block list \<Rightarrow> block list result"
where
  "retrieveBlockChildren env w 0 i = Exhausted"
| "retrieveBlockChildren env w (Suc n) i =
     (case blocks_children_list env w i of
        Inl e \<Rightarrow> Thrown e
      | Inr bs \<Rightarrow> walk_blocks env w n [] bs)"
| "walk_blocks env w n blocks [] = Returned blocks"
| "walk_blocks env w n blocks (b # bs) =
     (if has_children b then
        (case retrieveBlockChildren env w n (block_id b) of
           Returned childBlocks \<Rightarrow> walk_blocks env w n ((blocks @ [b]) @ childBlocks) bs
         | Thrown e \<Rightarrow> Thrown e
         | Exhausted \<Rightarrow> Exhausted)
      else walk_blocks env w n (blocks @ [b]) bs)"

section \<open>The synchronization run\<close>

definition updatePageWordCount :: "'w env \<Rightarrow> 'w state \<Rightarrow> string \<Rightarrow> nat \<Rightarrow> 'w state" where
  "updatePageWordCount env s pageId wordCount =
     (case pages_update env (world s) pageId wordCount of
        (None, w') \<Rightarrow> s\<lparr>world := w'\<rparr>
      | (Some e, w') \<Rightarrow> console_log (FailedToUpdateWordCount pageId) (s\<lparr>world := w'\<rparr>))"

definition new_Date :: "'w env \<Rightarrow> string \<Rightarrow> int option" where
  "new_Date env s = (if s = [] then None else date_value env s)"

text \<open>\<open>a <= b\<close> on two dates compares their time values and is false when one is \<open>NaN\<close>.\<close>

definition date_le :: "int option \<Rightarrow> int option \<Rightarrow> bool" where
  "date_le a b = (case a of None \<Rightarrow> False
                  | Some x \<Rightarrow> (case b of None \<Rightarrow> False | Some y \<Rightarrow> x \<le> y))"

text \<open>The condition of line 245; a string is truthy when it is not empty.\<close>

definition already_crawled :: "'w env \<Rightarrow> string option \<Rightarrow> string \<Rightarrow> bool" where
  "already_crawled env storedLastEditedTime lastEditedTime =
     (case storedLastEditedTime of
        None \<Rightarrow> False
      | Some st \<Rightarrow> st \<noteq> [] \<and> date_le (new_Date env lastEditedTime) (new_Date env st))"

text \<open>
  The body of the loop over the pages of one response. The lookup is awaited and runs in
  the state \<open>complete env (SelectTime pageId) s\<close>.
\<close>

definition process_page :: "'w env \<Rightarrow> nat \<Rightarrow> 'w state \<Rightarrow> page \<Rightarrow> 'w state outcome" where
  "process_page env depth s pg =
     (let pageId = page_id pg; lastEditedTime = page_last_edited_time pg;
          s0 = complete env (SelectTime pageId) s in
      case getStoredLastEditedTime env s0 pageId of
        Inl e \<Rightarrow> Threw e s0
      | Inr storedLastEditedTime \<Rightarrow>
          if already_crawled env storedLastEditedTime lastEditedTime
          then Done (console_log (AlreadyCrawled (page_url pg)) s0)
          else
            (case retrieveBlockChildren env (world s0) depth pageId of
               Exhausted \<Rightarrow> OutOfFuel
             | Thrown e \<Rightarrow> Threw e s0
             | Returned blocks \<Rightarrow>
                 (case countWordsInBlocks (unicode_class env) blocks of
                    Inl e \<Rightarrow> Threw e s0
                  | Inr wordCount \<Rightarrow>
                      (let s1 = updatePageWordCount env s0 pageId wordCount;
                           s2 = console_log (WordCountUpdated (page_url pg)) s1 in
                       case pages_retrieve env (world s2) pageId of
                         Inl e \<Rightarrow> Threw e s2
                       | Inr updatedPage \<Rightarrow>
                           Done (updateSQLiteDatabase env s2 pageId
                                   (page_last_edited_time updatedPage) wordCount)))))"

fun process_pages :: "'w env \<Rightarrow> nat \<Rightarrow> 'w state \<Rightarrow> page list \<Rightarrow> 'w state outcome" where
  "process_pages env depth s [] = Done s"
| "process_pages env depth s (pg # pgs) =
     (case process_page env depth s pg of
        Done s' \<Rightarrow> process_pages env depth s' pgs
      | Threw e s' \<Rightarrow> Threw e s'
      | OutOfFuel \<Rightarrow> OutOfFuel)"

text \<open>
  The \<open>while (hasMore)\<close> loop, from a cursor; the remote decides how long it runs, so it
  carries a bound \<open>n\<close> on the number of requests.
\<close>

fun query_loop :: "'w env \<Rightarrow> nat \<Rightarrow> nat \<Rightarrow> 'w state \<Rightarrow> string option \<Rightarrow> 'w state outcome" where
  "query_loop env depth 0 s startCursor = OutOfFuel"
| "query_loop env depth (Suc n) s startCursor =
     (case databases_query env (world s) startCursor of
        Inl e \<Rightarrow> Threw e s
      | Inr response \<Rightarrow>
          (case process_pages env depth s (results response) of
             Done s' \<Rightarrow>
               if has_more response then query_loop env depth n s' (next_cursor response)
               else Done s'
           | Threw e s' \<Rightarrow> Threw e s'
           | OutOfFuel \<Rightarrow> OutOfFuel))"

text \<open>
  The two statements after the loop, inside the \<open>try\<close>. The sum query is awaited and
  runs in the state \<open>complete env SelectSum s\<close>; the insert goes to the other database.
\<close>

definition store_total :: "'w env \<Rightarrow> 'w state \<Rightarrow> 'w state outcome" where
  "store_total env s =
     (let s0 = complete env SelectSum s in
      case getTotalWordCount env s0 of
        Inl e \<Rightarrow> Threw e s0
      | Inr totalWords \<Rightarrow>
          (case storeTotalWordCount env s0 totalWords of
             Inl e \<Rightarrow> Threw e s0
           | Inr s' \<Rightarrow> Done (console_log (TotalWordCountStored totalWords) s')))"

definition try_block :: "'w env \<Rightarrow> nat \<Rightarrow> nat \<Rightarrow> 'w state \<Rightarrow> 'w state outcome" where
  "try_block env depth n s =
     (case query_loop env depth n s None of
        Done s' \<Rightarrow> store_total env s'
      | Threw e s' \<Rightarrow> Threw e s'
      | OutOfFuel \<Rightarrow> OutOfFuel)"

definition processDatabasePages :: "'w env \<Rightarrow> nat \<Rightarrow> nat \<Rightarrow> 'w state \<Rightarrow> 'w state outcome" where
  "processDatabasePages env depth n s =
     (case try_block env depth n s of
        Done s' \<Rightarrow> Done s'
      | Threw e s' \<Rightarrow> Done (console_log (FailedToProcess e) s')
      | OutOfFuel \<Rightarrow> OutOfFuel)"

text \<open>The handler of \<open>GET /update_word_count\<close> and its two responses.\<close>

datatype response = Json_message | Status_500_error

definition update_word_count :: "'w env \<Rightarrow> nat \<Rightarrow> nat \<Rightarrow> 'w state \<Rightarrow> ('w state \<times> response) option" where
  "update_word_count env depth n s =
     (case processDatabasePages env depth n s of
        Done s' \<Rightarrow> Some (s', Json_message)
      | Threw e s' \<Rightarrow> Some (s', Status_500_error)
      | OutOfFuel \<Rightarrow> None)"

text \<open>The sum of \<open>word_count\<close> over all rows of table \<open>pages\<close>, 0 when there is none.\<close>

definition total_words :: "(string \<times> row) list \<Rightarrow> nat" where
  "total_words tbl = sum_list (map (\<lambda>kv. word_count (snd kv)) tbl)"

section \<open>The block tree of a document, as the specification describes it\<close>

text \<open>
  A document's blocks as a forest: each block with the list of its children. The
  depth-first pre-order of the specification yields a block, then all of its descendants,
  then its next sibling.
\<close>

datatype tree = Node (root: block) (children: "tree list")

fun preorder :: "tree \<Rightarrow> block list"
  and preorder_forest :: "tree list \<Rightarrow> block list"
where
  "preorder (Node b ts) = b # preorder_forest ts"
| "preorder_forest [] = []"
| "preorder_forest (t # ts) = preorder t @ preorder_forest ts"

fun height :: "tree \<Rightarrow> nat"
  and height_forest :: "tree list \<Rightarrow> nat"
where
  "height (Node b ts) = Suc (height_forest ts)"
| "height_forest [] = 0"
| "height_forest (t # ts) = max (height t) (height_forest ts)"

text \<open>
  The remote serves a forest: listing the children of a block flagged \<open>has_children\<close>
  gives the roots of its subtrees, and a block without the flag is a leaf.
\<close>

fun serves :: "'w env \<Rightarrow> 'w \<Rightarrow> tree \<Rightarrow> bool"
  and serves_forest :: "'w env \<Rightarrow> 'w \<Rightarrow> tree list \<Rightarrow> bool"
where
  "serves env w (Node b ts) =
     (if has_children b
      then blocks_children_list env w (block_id b) = Inr (map root ts) \<and> serves_forest env w ts
      else ts = [])"
| "serves_forest env w [] = True"
| "serves_forest env w (t # ts) = (serves env w t \<and> serves_forest env w ts)"

definition serves_document :: "'w env \<Rightarrow> 'w \<Rightarrow> string \<Rightarrow> tree list \<Rightarrow> bool" where
  "serves_document env w i ts =
     (blocks_children_list env w i = Inr (map root ts) \<and> serves_forest env w ts)"

section \<open>Example data\<close>

definition para_block :: "string \<Rightarrow> bool \<Rightarrow> string \<Rightarrow> block" where
  "para_block i hc s = \<lparr>block_id = i, block_type = ''paragraph'', has_children = hc,
     content = Some \<lparr>rich_text = Some [\<lparr>plain_text = lit s\<rparr>], url = [], title = [], expression = []\<rparr>\<rparr>"


text \<open>
  A remote with three documents, listed in two responses. \<open>doc1\<close> has the blocks
  \<open>[A(children: [B]), C]\<close>, \<open>doc2\<close> the block \<open>D\<close>, \<open>doc3\<close> the block \<open>E\<close>. The world
  holds the edit time and the written \<open>Word Count\<close> of each document; an update sets
  the edit time of its document to \<open>time2\<close>. The list of faults tells which calls fail,
  and before which awaited statements the queued upserts have not completed.
\<close>

datatype fault =
    FailQuery
  | FailChildren string
  | FailUpdate string
  | FailRetrieve string
  | FailSqlite statement
  | NotDoneBefore statement

record demo_world =
  edited :: "(string \<times> string) list"
  written :: "(string \<times> nat) list"

definition time1 :: string where
  "time1 = ''2024-05-01T10:00:00.000Z''"

definition time2 :: string where
  "time2 = ''2024-05-02T08:30:00.000Z''"

definition demo_dates :: "(string \<times> int) list" where
  "demo_dates = [(time1, 1714557600000), (time2, 1714638600000)]"

definition block_A :: block where
  "block_A = para_block ''A'' True ''alpha beta''"

definition block_B :: block where
  "block_B = para_block ''B'' False ''gamma''"

definition block_C :: block where
  "block_C = \<lparr>block_id = ''C'', block_type = ''divider'', has_children = False, content = None\<rparr>"

definition block_D :: block where
  "block_D = para_block ''D'' False ''delta epsilon''"

definition block_E :: block where
  "block_E = para_block ''E'' False ''zeta eta''"

definition demo_children :: "string \<Rightarrow> block list" where
  "demo_children i =
     (if i = ''doc1'' then [block_A, block_C]
      else if i = ''A'' then [block_B]
      else if i = ''doc2'' then [block_D]
      else if i = ''doc3'' then [block_E]
      else [])"

definition demo_page :: "demo_world \<Rightarrow> string \<Rightarrow> page" where
  "demo_page w i =
     \<lparr>page_id = i,
      page_last_edited_time = (case map_of (edited w) i of None \<Rightarrow> time1 | Some t \<Rightarrow> t),
      page_url = ''https://www.notion.so/'' @ i\<rparr>"

definition demo_env :: "fault list \<Rightarrow> demo_world env" where
  "demo_env faults =
     \<lparr>databases_query = (\<lambda>w c.
        if FailQuery \<in> set faults then Inl RemoteError
        else (case c of
                None \<Rightarrow> Inr \<lparr>results = [demo_page w ''doc1'', demo_page w ''doc2''],
                              has_more = True, next_cursor = Some ''cursor1''\<rparr>
              | Some _ \<Rightarrow> Inr \<lparr>results = [demo_page w ''doc3''],
                                has_more = False, next_cursor = None\<rparr>)),
      blocks_children_list = (\<lambda>w i.
        if (FailChildren i) \<in> set faults then Inl RemoteError else Inr (demo_children i)),
      pages_update = (\<lambda>w i n.
        if (FailUpdate i) \<in> set faults then (Some RemoteError, w)
        else (None, w\<lparr>edited := AList.update i time2 (edited w),
                        written := AList.update i n (written w)\<rparr>)),
      pages_retrieve = (\<lambda>w i.
        if (FailRetrieve i) \<in> set faults then Inl RemoteError else Inr (demo_page w i)),
      sqlite_error = (\<lambda>w st. (FailSqlite st) \<in> set faults),
      sqlite_done = (\<lambda>w st i. (NotDoneBefore st) \<notin> set faults),
      date_value = map_of demo_dates,
      unicode_class = (\<lambda>c. False)\<rparr>"

definition demo_world0 :: demo_world where
  "demo_world0 = \<lparr>edited = [(''doc1'', time1), (''doc2'', time1), (''doc3'', time1)], written = []\<rparr>"

definition demo_state0 :: "demo_world state" where
  "demo_state0 =
     \<lparr>world = demo_world0, pages_tbl = [], pending = [], word_count_history = [], console = []\<rparr>"

definition demo_forest :: "tree list" where
  "demo_forest = [Node block_A [Node block_B []], Node block_C []]"

text \<open>The state after a first run without faults.\<close>

definition demo_state1 :: "demo_world state" where
  "demo_state1 =
     \<lparr>world = \<lparr>edited = [(''doc1'', time2), (''doc2'', time2), (''doc3'', time2)],
                written = [(''doc1'', 10), (''doc2'', 2), (''doc3'', 2)]\<rparr>,
      pages_tbl = [(''doc1'', \<lparr>last_edited_time = time2, word_count = 10\<rparr>),
                   (''doc2'', \<lparr>last_edited_time = time2, word_count = 2\<rparr>),
                   (''doc3'', \<lparr>last_edited_time = time2, word_count = 2\<rparr>)],
      pending = [],
      word_count_history = [14],
      console = [WordCountUpdated ''https://www.notion.so/doc1'',
                 WordCountUpdated ''https://www.notion.so/doc2'',
                 WordCountUpdated ''https://www.notion.so/doc3'',
                 TotalWordCountStored 14]\<rparr>"


section \<open>Properties of the tokenizer and of the text of a block\<close>

lemma runs_no_member: "\<forall>c\<in>set ws. \<not> P c \<Longrightarrow> runs P ws = []"
  by (induction ws) auto

lemma runs_append_outside:
  "\<forall>c\<in>set ws. \<not> P c \<Longrightarrow> length (runs P (s @ ws)) = length (runs P s)"
proof (induction P s rule: runs.induct)
  case (1 P)
  then show ?case by (simp add: runs_no_member)
next
  case (2 P c cs)
  show ?case
  proof (cases "P c")
    case False
    with 2 show ?thesis by simp
  next
    case True
    show ?thesis
    proof (cases "\<forall>x\<in>set cs. P x")
      case all: True
      then have d: "dropWhile P (cs @ ws) = ws" "dropWhile P cs = []"
        using 2(3) by (auto simp: dropWhile_append dropWhile_eq_self_iff intro: hd_in_set)
      show ?thesis using True 2(3) by (simp add: d runs_no_member)
    next
      case False
      then have "dropWhile P (cs @ ws) = dropWhile P cs @ ws"
        by (auto simp: dropWhile_append)
      then show ?thesis using True 2 by simp
    qed
  qed
qed

lemma runs_append_separator:
  "\<not> P x \<Longrightarrow> length (runs P (s @ x # ws)) = length (runs P s) + length (runs P ws)"
proof (induction P s rule: runs.induct)
  case (1 P)
  then show ?case by simp
next
  case (2 P c cs)
  show ?case
  proof (cases "P c")
    case False
    with 2 show ?thesis by simp
  next
    case True
    show ?thesis
    proof (cases "\<forall>y\<in>set cs. P y")
      case all: True
      then have d: "dropWhile P (cs @ x # ws) = x # ws" "dropWhile P cs = []"
        using 2(3) by (auto simp: dropWhile_append)
      show ?thesis using True 2(3) by (simp add: d)
    next
      case False
      then have "dropWhile P (cs @ x # ws) = dropWhile P cs @ x # ws"
        by (auto simp: dropWhile_append)
      then show ?thesis using True 2 by simp
    qed
  qed
qed

lemma countWordsInText_runs:
  "countWordsInText uc (Some t) = length (runs (word_char uc) t)"
  by (cases "runs (word_char uc) t") (auto simp: countWordsInText_def match_words_def)

lemma white_space_not_word:
  assumes "\<forall>c. white_space c \<longrightarrow> \<not> uc c" and "white_space c"
  shows "\<not> word_char uc c"
proof (cases "c < 128")
  case True
  have "white_space c \<Longrightarrow> c < 128 \<Longrightarrow> c \<le> 32"
    unfolding white_space_def by arith
  with True assms(2) show ?thesis by (simp add: word_char_def)
next
  case False
  with assms show ?thesis by (simp add: word_char_def)
qed

lemma suffix_words:
  "countWordsInText uc (Some (t @ children_suffix)) = countWordsInText uc (Some t) + 2"
proof -
  have sp: "\<not> word_char uc 32" by (simp add: word_char_def)
  have "children_suffix = 32 # lit ''(Has children)''"
    by (simp add: children_suffix_def lit_def)
  moreover have "length (runs (word_char uc) (lit ''(Has children)'')) = 2"
    by (simp add: lit_def word_char_def)
  ultimately show ?thesis
    using sp runs_append_separator [of "word_char uc" 32 t "lit ''(Has children)''"]
    by (simp add: countWordsInText_runs)
qed

lemma getTextFromBlock_children:
  assumes "has_children b" and "getTextFromBlock b = Inr t"
  shows "\<exists>t0. getTextFromBlock (b\<lparr>has_children := False\<rparr>) = Inr t0 \<and> t = t0 @ children_suffix"
  using assms by (auto simp: getTextFromBlock_def split: option.splits sum.splits)

text \<open>
  C8. \<open>countWordsInText\<close> is 0 on the empty string and on an absent text; appending white
  space to a string does not change its count (the Unicode table of the engine puts no
  white-space code point in the classes L, N or Emoji_Presentation); and
  \<open>"Hello, world! 123"\<close> has the three words \<open>Hello\<close>, \<open>world\<close> and \<open>123\<close>.
\<close>

theorem countWordsInText_spec:
  "countWordsInText uc (Some []) = 0 \<and> countWordsInText uc None = 0 \<and>
   ((\<forall>c. white_space c \<longrightarrow> \<not> uc c) \<longrightarrow>
      (\<forall>s ws. (\<forall>c\<in>set ws. white_space c) \<longrightarrow>
         countWordsInText uc (Some (s @ ws)) = countWordsInText uc (Some s))) \<and>
   match_words uc (lit ''Hello, world! 123'') = Some [lit ''Hello'', lit ''world'', lit ''123''] \<and>
   countWordsInText uc (Some (lit ''Hello, world! 123'')) = 3"
proof (intro conjI impI allI)
  show "countWordsInText uc (Some []) = 0" by (simp add: countWordsInText_def)
  show "countWordsInText uc None = 0" by (simp add: countWordsInText_def)
  show "match_words uc (lit ''Hello, world! 123'') = Some [lit ''Hello'', lit ''world'', lit ''123'']"
    by (simp add: match_words_def lit_def word_char_def)
  show "countWordsInText uc (Some (lit ''Hello, world! 123'')) = 3"
    by (simp add: countWordsInText_def match_words_def lit_def word_char_def)
next
  fix s ws
  assume tbl: "\<forall>c. white_space c \<longrightarrow> \<not> uc c" and ws: "\<forall>c\<in>set ws. white_space c"
  have "\<forall>c\<in>set ws. \<not> word_char uc c"
    using white_space_not_word [OF tbl] ws by blast
  then show "countWordsInText uc (Some (s @ ws)) = countWordsInText uc (Some s)"
    by (simp add: countWordsInText_runs runs_append_outside)
qed

theorem countWordsInText_spec_witness:
  "countWordsInText (\<lambda>c. c = 233) (Some (lit ''caf'' @ [233, 32, 49] @ [32, 9, 160, 10])) = 2 \<and>
   countWordsInText (\<lambda>c. c = 233) (Some (lit ''caf'' @ [233, 32, 49])) = 2"
proof -
  have tbl: "\<forall>c. white_space c \<longrightarrow> \<not> (\<lambda>c. c = (233::nat)) c"
    by (simp add: white_space_def)
  have ws: "\<forall>c\<in>set [32, 9, 160, 10]. white_space c"
    by (simp add: white_space_def)
  have "countWordsInText (\<lambda>c. c = 233) (Some (lit ''caf'' @ [233, 32, 49])) = 2"
    by (simp add: countWordsInText_def match_words_def lit_def word_char_def)
  moreover have "countWordsInText (\<lambda>c. c = 233) (Some ((lit ''caf'' @ [233, 32, 49]) @ [32, 9, 160, 10]))
      = countWordsInText (\<lambda>c. c = 233) (Some (lit ''caf'' @ [233, 32, 49]))"
    using countWordsInText_spec [of "\<lambda>c. c = 233"] tbl ws by blast
  ultimately show ?thesis by simp
qed

text \<open>
  C9. A block whose type is none of the tags of the \<open>switch\<close> and whose payload has no
  \<open>rich_text\<close> yields the marker \<open>[Unsupported or non-text block]\<close>, followed by
  \<open> (Has children)\<close> exactly when \<open>has_children\<close> is true.
\<close>

theorem getTextFromBlock_unsupported:
  assumes "block_type b \<notin> set recognized_types" and "\<not> has_rich_text b"
  shows "getTextFromBlock b =
           Inr (if has_children b then unsupported_marker @ children_suffix else unsupported_marker)
         \<and> (getTextFromBlock b = Inr (unsupported_marker @ children_suffix) \<longleftrightarrow> has_children b)
         \<and> (getTextFromBlock b = Inr unsupported_marker \<longleftrightarrow> \<not> has_children b)"
proof -
  have sw: "switch_type (block_type b) pl = Inr unsupported_marker" for pl
    using assms(1) by (simp add: switch_type_def recognized_types_def)
  have res: "getTextFromBlock b =
           Inr (if has_children b then unsupported_marker @ children_suffix else unsupported_marker)"
    using assms(2) by (auto simp: getTextFromBlock_def has_rich_text_def sw split: option.splits)
  have "children_suffix \<noteq> []" by (simp add: children_suffix_def lit_def)
  then show ?thesis using res by auto
qed

theorem getTextFromBlock_unsupported_witness:
  "getTextFromBlock \<lparr>block_id = ''b1'', block_type = ''table_of_contents'', has_children = True,
      content = Some \<lparr>rich_text = None, url = [], title = [], expression = []\<rparr>\<rparr>
     = Inr (lit ''[Unsupported or non-text block] (Has children)'') \<and>
   getTextFromBlock \<lparr>block_id = ''b2'', block_type = ''divider'', has_children = False,
      content = None\<rparr> = Inr (lit ''[Unsupported or non-text block]'')"
proof -
  have "getTextFromBlock \<lparr>block_id = ''b1'', block_type = ''table_of_contents'', has_children = True,
      content = Some \<lparr>rich_text = None, url = [], title = [], expression = []\<rparr>\<rparr>
     = Inr (lit ''[Unsupported or non-text block] (Has children)'')"
    using getTextFromBlock_unsupported [of "\<lparr>block_id = ''b1'', block_type = ''table_of_contents'',
      has_children = True, content = Some \<lparr>rich_text = None, url = [], title = [], expression = []\<rparr>\<rparr>"]
    by (simp add: recognized_types_def has_rich_text_def unsupported_marker_def children_suffix_def lit_def)
  moreover have "getTextFromBlock \<lparr>block_id = ''b2'', block_type = ''divider'', has_children = False,
      content = None\<rparr> = Inr (lit ''[Unsupported or non-text block]'')"
    using getTextFromBlock_unsupported [of "\<lparr>block_id = ''b2'', block_type = ''divider'',
      has_children = False, content = None\<rparr>"]
    by (simp add: recognized_types_def has_rich_text_def unsupported_marker_def lit_def)
  ultimately show ?thesis by simp
qed

section \<open>The annotation of child-bearing blocks in the word count\<close>

lemma getTextFromBlock_with_children:
  assumes "has_children b" and "getTextFromBlock b = Inr t"
  shows "\<exists>t0. getTextFromBlock (childless b) = Inr t0 \<and> t = t0 @ children_suffix"
  using getTextFromBlock_children [OF assms] by (simp add: childless_def)

lemma childless_id: "\<not> has_children b \<Longrightarrow> childless b = b"
  by (simp add: childless_def)

lemma countWordsInBlocks_from_shift:
  "countWordsInBlocks_from uc a bs = Inr m \<Longrightarrow>
   countWordsInBlocks_from uc (a + d) bs = Inr (m + d)"
proof (induction bs arbitrary: a m)
  case Nil
  then show ?case by simp
next
  case (Cons b bs)
  show ?case
  proof (cases "getTextFromBlock b")
    case (Inl e)
    with Cons.prems show ?thesis by simp
  next
    case (Inr t)
    with Cons.prems have "countWordsInBlocks_from uc (a + countWordsInText uc (Some t)) bs = Inr m"
      by simp
    from Cons.IH [OF this]
    have "countWordsInBlocks_from uc (a + countWordsInText uc (Some t) + d) bs = Inr (m + d)" .
    moreover have "a + countWordsInText uc (Some t) + d = a + d + countWordsInText uc (Some t)"
      by simp
    ultimately show ?thesis by (simp add: Inr)
  qed
qed

lemma countWordsInBlocks_from_error:
  "countWordsInBlocks_from uc a bs = Inl e \<Longrightarrow> countWordsInBlocks_from uc a' bs = Inl e"
proof (induction bs arbitrary: a a')
  case Nil
  then show ?case by simp
next
  case (Cons b bs)
  show ?case
  proof (cases "getTextFromBlock b")
    case (Inl e')
    with Cons.prems show ?thesis by simp
  next
    case (Inr t)
    with Cons.prems have "countWordsInBlocks_from uc (a + countWordsInText uc (Some t)) bs = Inl e"
      by simp
    from Cons.IH [OF this, of "a' + countWordsInText uc (Some t)"]
    show ?thesis by (simp add: Inr)
  qed
qed

lemma countWordsInBlocks_Cons:
  "countWordsInBlocks uc (b # bs) =
     (case getTextFromBlock b of Inl e \<Rightarrow> Inl e
      | Inr t \<Rightarrow> (case countWordsInBlocks uc bs of Inl e \<Rightarrow> Inl e
                  | Inr n \<Rightarrow> Inr (countWordsInText uc (Some t) + n)))"
proof (cases "getTextFromBlock b")
  case (Inl e)
  then show ?thesis by (simp add: countWordsInBlocks_def)
next
  case t: (Inr t)
  show ?thesis
  proof (cases "countWordsInBlocks_from uc 0 bs")
    case (Inl e)
    from countWordsInBlocks_from_error [OF this, of "countWordsInText uc (Some t)"]
    show ?thesis by (simp add: countWordsInBlocks_def t Inl)
  next
    case (Inr n)
    from countWordsInBlocks_from_shift [OF this, of "countWordsInText uc (Some t)"]
    show ?thesis by (simp add: countWordsInBlocks_def t Inr add.commute)
  qed
qed

lemma countWordsInBlocks_children:
  "countWordsInBlocks uc bs = Inr n \<Longrightarrow>
     \<exists>m. countWordsInBlocks uc (map childless bs) = Inr m \<and>
         n = m + 2 * length (filter has_children bs)"
proof (induction bs arbitrary: n)
  case Nil
  then show ?case by (simp add: countWordsInBlocks_def)
next
  case (Cons b bs)
  from Cons.prems obtain t k where t: "getTextFromBlock b = Inr t"
    and k: "countWordsInBlocks uc bs = Inr k" and n: "n = countWordsInText uc (Some t) + k"
    by (auto simp: countWordsInBlocks_Cons split: sum.splits)
  from Cons.IH [OF k] obtain m where
    m: "countWordsInBlocks uc (map childless bs) = Inr m"
    and km: "k = m + 2 * length (filter has_children bs)" by blast
  show ?case
  proof (cases "has_children b")
    case True
    from getTextFromBlock_with_children [OF True t] obtain t0 where
      t0: "getTextFromBlock (childless b) = Inr t0" and tt: "t = t0 @ children_suffix"
      by blast
    show ?thesis using True n km
      by (simp add: countWordsInBlocks_Cons t0 m tt suffix_words)
  next
    case False
    then show ?thesis using n km t
      by (simp add: countWordsInBlocks_Cons m childless_id)
  qed
qed

text \<open>
  C10. The annotation of a block with \<open>has_children\<close> adds exactly two words to the count
  of that block, whatever its text, and a document's total is its total without the
  annotations plus two for every child-bearing block.
\<close>

theorem has_children_adds_two_words:
  "(has_children b \<and> getTextFromBlock b = Inr t \<longrightarrow>
      (\<exists>t0. getTextFromBlock (childless b) = Inr t0 \<and> t = t0 @ children_suffix \<and>
            countWordsInText uc (Some t) = countWordsInText uc (Some t0) + 2)) \<and>
   (countWordsInBlocks uc bs = Inr n \<longrightarrow>
      (\<exists>m. countWordsInBlocks uc (map childless bs) = Inr m \<and>
           n = m + 2 * length (filter has_children bs)))"
proof (intro conjI impI)
  assume "has_children b \<and> getTextFromBlock b = Inr t"
  then obtain t0 where "getTextFromBlock (childless b) = Inr t0" "t = t0 @ children_suffix"
    using getTextFromBlock_with_children [of b t] by blast
  then show "\<exists>t0. getTextFromBlock (childless b) = Inr t0 \<and> t = t0 @ children_suffix \<and>
            countWordsInText uc (Some t) = countWordsInText uc (Some t0) + 2"
    by (simp add: suffix_words)
next
  assume "countWordsInBlocks uc bs = Inr n"
  then show "\<exists>m. countWordsInBlocks uc (map childless bs) = Inr m \<and>
           n = m + 2 * length (filter has_children bs)"
    by (rule countWordsInBlocks_children)
qed

theorem has_children_adds_two_words_witness:
  "getTextFromBlock (para_block ''a'' True ''one two'') = Inr (lit ''one two (Has children)'') \<and>
   getTextFromBlock (childless (para_block ''a'' True ''one two'')) = Inr (lit ''one two'') \<and>
   countWordsInText (\<lambda>c. False) (Some (lit ''one two (Has children)'')) = 4 \<and>
   countWordsInText (\<lambda>c. False) (Some (lit ''one two'')) = 2 \<and>
   countWordsInBlocks (\<lambda>c. False) [para_block ''a'' True ''one two'', para_block ''b'' False ''three'']
     = Inr 5 \<and>
   countWordsInBlocks (\<lambda>c. False)
     (map childless [para_block ''a'' True ''one two'', para_block ''b'' False ''three'']) = Inr 3"
proof -
  have a: "has_children (para_block ''a'' True ''one two'')" by (simp add: para_block_def)
  have b: "getTextFromBlock (para_block ''a'' True ''one two'') = Inr (lit ''one two (Has children)'')"
    by (simp add: countWordsInBlocks_def getTextFromBlock_def para_block_def
        getPlainTextFromRichText_def countWordsInText_def match_words_def lit_def word_char_def
        children_suffix_def childless_def)
  have c: "countWordsInBlocks (\<lambda>c. False)
      [para_block ''a'' True ''one two'', para_block ''b'' False ''three''] = Inr 5"
    by (simp add: countWordsInBlocks_def getTextFromBlock_def para_block_def
        getPlainTextFromRichText_def countWordsInText_def match_words_def lit_def word_char_def
        children_suffix_def childless_def)
  have d: "countWordsInText (\<lambda>c. False) (Some (lit ''one two'')) = 2"
    by (simp add: countWordsInBlocks_def getTextFromBlock_def para_block_def
        getPlainTextFromRichText_def countWordsInText_def match_words_def lit_def word_char_def
        children_suffix_def childless_def)
  have e: "getTextFromBlock (childless (para_block ''a'' True ''one two'')) = Inr (lit ''one two'')"
    by (simp add: countWordsInBlocks_def getTextFromBlock_def para_block_def
        getPlainTextFromRichText_def countWordsInText_def match_words_def lit_def word_char_def
        children_suffix_def childless_def)
  from has_children_adds_two_words [of "para_block ''a'' True ''one two''"
      "lit ''one two (Has children)''" "\<lambda>c. False"
      "[para_block ''a'' True ''one two'', para_block ''b'' False ''three'']" 5] a b c
  have f: "(\<exists>t0. getTextFromBlock (childless (para_block ''a'' True ''one two'')) = Inr t0 \<and>
         countWordsInText (\<lambda>c. False) (Some (lit ''one two (Has children)'')) =
         countWordsInText (\<lambda>c. False) (Some t0) + 2)"
    and g: "\<exists>m. countWordsInBlocks (\<lambda>c. False)
       (map childless [para_block ''a'' True ''one two'', para_block ''b'' False ''three'']) = Inr m \<and>
       5 = m + 2 * length (filter has_children
           [para_block ''a'' True ''one two'', para_block ''b'' False ''three''])"
    by blast+
  have h: "length (filter has_children
           [para_block ''a'' True ''one two'', para_block ''b'' False ''three'']) = 1"
    by (simp add: para_block_def)
  from f e d have i: "countWordsInText (\<lambda>c. False) (Some (lit ''one two (Has children)'')) = 4"
    by auto
  from g h have j: "countWordsInBlocks (\<lambda>c. False)
     (map childless [para_block ''a'' True ''one two'', para_block ''b'' False ''three'']) = Inr 3"
    by auto
  show ?thesis using b e i d c j by blast
qed

section \<open>Processing one document\<close>

lemma console_log_simps:
  "world (console_log ev s) = world s"
  "pages_tbl (console_log ev s) = pages_tbl s"
  "pending (console_log ev s) = pending s"
  "word_count_history (console_log ev s) = word_count_history s"
  "console (console_log ev s) = console s @ [ev]"
  by (simp_all add: console_log_def)

lemma updatePageWordCount_simps:
  "pages_tbl (updatePageWordCount env s i n) = pages_tbl s"
  "pending (updatePageWordCount env s i n) = pending s"
  "word_count_history (updatePageWordCount env s i n) = word_count_history s"
  "world (updatePageWordCount env s i n) = snd (pages_update env (world s) i n)"
  "console (updatePageWordCount env s i n) =
     console s @ (case fst (pages_update env (world s) i n) of
                    None \<Rightarrow> [] | Some e \<Rightarrow> [FailedToUpdateWordCount i])"
  by (auto simp: updatePageWordCount_def console_log_def split: prod.splits option.splits)

lemma updateSQLiteDatabase_simps:
  "world (updateSQLiteDatabase env s i t n) = world s"
  "word_count_history (updateSQLiteDatabase env s i t n) = word_count_history s"
  "console (updateSQLiteDatabase env s i t n) = console s"
  "pages_tbl (updateSQLiteDatabase env s i t n) = pages_tbl s"
  "pending (updateSQLiteDatabase env s i t n) =
     pending s @ [\<lparr>upsert_id = i, upsert_row = \<lparr>last_edited_time = t, word_count = n\<rparr>,
                   upsert_fails = sqlite_error env (world s) (Upsert i)\<rparr>]"
  by (simp_all add: updateSQLiteDatabase_def)

lemma apply_upsert_simps:
  "world (apply_upsert u s) = world s"
  "pending (apply_upsert u s) = pending s"
  "word_count_history (apply_upsert u s) = word_count_history s"
  by (simp_all add: apply_upsert_def console_log_def)

lemma fold_apply_upsert_simps:
  "world (fold apply_upsert us s) = world s"
  "pending (fold apply_upsert us s) = pending s"
  "word_count_history (fold apply_upsert us s) = word_count_history s"
  by (induction us arbitrary: s) (simp_all add: apply_upsert_simps)

lemma complete_simps:
  "world (complete env st s) = world s"
  "word_count_history (complete env st s) = word_count_history s"
  by (simp_all add: complete_def fold_apply_upsert_simps)

lemma complete_no_pending: "pending s = [] \<Longrightarrow> complete env st s = s"
  by (simp add: complete_def completed_by_def still_queued_def enumerate_eq_zip)

lemma settled_no_pending: "pending s = [] \<Longrightarrow> settled s = s"
  by (simp add: settled_def)

lemma settled_simps:
  "world (settled s) = world s"
  "pending (settled s) = []"
  "word_count_history (settled s) = word_count_history s"
  by (simp_all add: settled_def fold_apply_upsert_simps)

lemma fold_apply_upsert_cong:
  "pages_tbl s = pages_tbl s' \<Longrightarrow>
   pages_tbl (fold apply_upsert us s) = pages_tbl (fold apply_upsert us s')"
proof (induction us arbitrary: s s')
  case Nil
  then show ?case by simp
next
  case (Cons u us)
  have "pages_tbl (apply_upsert u s) = pages_tbl (apply_upsert u s')"
    using Cons.prems by (simp add: apply_upsert_def console_log_def)
  then show ?case using Cons.IH by simp
qed

lemma process_page_skip:
  assumes "getStoredLastEditedTime env (complete env (SelectTime (page_id pg)) s) (page_id pg)
             = Inr stored"
    and "already_crawled env stored (page_last_edited_time pg)"
  shows "process_page env depth s pg =
           Done (console_log (AlreadyCrawled (page_url pg))
                   (complete env (SelectTime (page_id pg)) s))"
  using assms by (simp add: process_page_def Let_def)

lemma process_page_reprocess:
  assumes "getStoredLastEditedTime env (complete env (SelectTime (page_id pg)) s) (page_id pg)
             = Inr stored"
    and "\<not> already_crawled env stored (page_last_edited_time pg)"
    and "retrieveBlockChildren env (world s) depth (page_id pg) = Returned blocks"
    and "countWordsInBlocks (unicode_class env) blocks = Inr wordCount"
  shows "process_page env depth s pg =
    (case pages_retrieve env
            (world (console_log (WordCountUpdated (page_url pg))
                     (updatePageWordCount env (complete env (SelectTime (page_id pg)) s)
                        (page_id pg) wordCount))) (page_id pg) of
       Inl e \<Rightarrow> Threw e (console_log (WordCountUpdated (page_url pg))
                     (updatePageWordCount env (complete env (SelectTime (page_id pg)) s)
                        (page_id pg) wordCount))
     | Inr updatedPage \<Rightarrow>
         Done (updateSQLiteDatabase env
                 (console_log (WordCountUpdated (page_url pg))
                     (updatePageWordCount env (complete env (SelectTime (page_id pg)) s)
                        (page_id pg) wordCount))
                 (page_id pg) (page_last_edited_time updatedPage) wordCount))"
  using assms by (simp add: process_page_def Let_def complete_simps)


lemma getStoredLastEditedTime_ok:
  "\<not> sqlite_error env (world s) (SelectTime i) \<Longrightarrow>
   getStoredLastEditedTime env s i = Inr (map_option last_edited_time (map_of (pages_tbl s) i))"
  by (simp add: getStoredLastEditedTime_def map_option_case)




section \<open>The walk is the pre-order of the served forest\<close>

lemma walk_blocks_serves:
  assumes P: "\<And>i ts. serves_document env w i ts \<Longrightarrow> height_forest ts < n \<Longrightarrow>
             retrieveBlockChildren env w n i = Returned (preorder_forest ts)"
  shows "serves_forest env w ts \<Longrightarrow> height_forest ts \<le> n \<Longrightarrow>
         walk_blocks env w n blocks (map root ts) = Returned (blocks @ preorder_forest ts)"
proof (induction ts arbitrary: blocks)
  case Nil
  show ?case by simp
next
  case (Cons t ts)
  obtain b cs where t: "t = Node b cs" by (cases t)
  from Cons.prems have rest: "serves_forest env w ts" "height_forest ts \<le> n"
    and st: "serves env w t" and ht: "height t \<le> n" by auto
  show ?case
  proof (cases "has_children b")
    case True
    with st t have "serves_document env w (block_id b) cs"
      by (simp add: serves_document_def)
    moreover from ht t have "height_forest cs < n" by simp
    ultimately have "retrieveBlockChildren env w n (block_id b) = Returned (preorder_forest cs)"
      by (rule P)
    then show ?thesis
      using True t Cons.IH [OF rest, of "(blocks @ [b]) @ preorder_forest cs"] by simp
  next
    case False
    with st t have "cs = []" by simp
    then show ?thesis
      using False t Cons.IH [OF rest, of "blocks @ [b]"] by simp
  qed
qed

lemma retrieveBlockChildren_serves:
  "serves_document env w i ts \<Longrightarrow> height_forest ts < n \<Longrightarrow>
   retrieveBlockChildren env w n i = Returned (preorder_forest ts)"
proof (induction n arbitrary: i ts)
  case 0
  then show ?case by simp
next
  case (Suc n)
  from Suc.prems have l: "blocks_children_list env w i = Inr (map root ts)"
    and s: "serves_forest env w ts" and h: "height_forest ts \<le> n"
    by (auto simp: serves_document_def)
  have "walk_blocks env w n [] (map root ts) = Returned ([] @ preorder_forest ts)"
  proof (rule walk_blocks_serves)
    show "serves_forest env w ts" by (rule s)
    show "height_forest ts \<le> n" by (rule h)
    show "retrieveBlockChildren env w n i' = Returned (preorder_forest ts')"
      if "serves_document env w i' ts'" "height_forest ts' < n" for i' ts'
      using that by (rule Suc.IH)
  qed
  then show ?case by (simp add: l)
qed

lemma preorder_forest_append:
  "preorder_forest (xs @ ys) = preorder_forest xs @ preorder_forest ys"
  by (induction xs) auto

text \<open>
  C7. When the remote serves the forest \<open>ts\<close> for a document, the walk (given a depth
  bound above the height of the forest) returns the depth-first pre-order of \<open>ts\<close>: a
  block, then all of its descendants, then its next sibling. For \<open>[A(children: [B]), C]\<close>
  the order is \<open>A, B, C\<close>.
\<close>

theorem retrieveBlockChildren_preorder:
  assumes "serves_document env w i ts" and "height_forest ts < n"
  shows "retrieveBlockChildren env w n i = Returned (preorder_forest ts) \<and>
         (\<forall>pre b cs post. ts = pre @ Node b cs # post \<longrightarrow>
            preorder_forest ts =
              preorder_forest pre @ b # preorder_forest cs @ preorder_forest post) \<and>
         preorder_forest [Node a [Node b' []], Node c []] = [a, b', c]"
  using retrieveBlockChildren_serves [OF assms] by (simp add: preorder_forest_append)

theorem retrieveBlockChildren_preorder_witness:
  "retrieveBlockChildren (demo_env []) demo_world0 3 ''doc1'' = Returned [block_A, block_B, block_C]"
proof -
  have s: "serves_document (demo_env []) demo_world0 ''doc1'' demo_forest"
    by (simp add: serves_document_def demo_forest_def demo_env_def demo_children_def
        block_A_def block_B_def block_C_def para_block_def)
  have h: "height_forest demo_forest < 3"
    by (simp add: demo_forest_def)
  have p: "preorder_forest demo_forest = [block_A, block_B, block_C]"
    by (simp add: demo_forest_def)
  from retrieveBlockChildren_preorder [OF s h] p show ?thesis by simp
qed


subsection \<open>Evaluation of the example remote\<close>

lemma demo_walk_doc1:
  "retrieveBlockChildren (demo_env fs) demo_world0 3 ''doc1'' =
     (if FailChildren ''doc1'' \<in> set fs \<or> FailChildren ''A'' \<in> set fs then Thrown RemoteError
      else Returned [block_A, block_B, block_C])"
  by (simp add: numeral_3_eq_3 demo_env_def demo_children_def block_A_def block_B_def block_C_def
      para_block_def)

lemma demo_count_doc1:
  "countWordsInBlocks (unicode_class (demo_env fs)) [block_A, block_B, block_C] = Inr 10"
  by (simp add: demo_env_def countWordsInBlocks_def getTextFromBlock_def block_A_def block_B_def
      block_C_def para_block_def getPlainTextFromRichText_def switch_type_def field_def
      countWordsInText_def match_words_def lit_def word_char_def children_suffix_def
      unsupported_marker_def)

lemma settled_snoc:
  assumes "pending s' = pending s0 @ [u]" and "pages_tbl s' = pages_tbl s0"
  shows "pages_tbl (settled s') = pages_tbl (apply_upsert u (settled s0))"
proof -
  have "pages_tbl (fold apply_upsert (pending s0) (s'\<lparr>pending := []\<rparr>))
      = pages_tbl (fold apply_upsert (pending s0) (s0\<lparr>pending := []\<rparr>))"
    by (rule fold_apply_upsert_cong) (simp add: assms(2))
  then show ?thesis
    by (simp add: settled_def assms(1) apply_upsert_def console_log_def)
qed

lemma settled_snoc_row:
  assumes "pending s' = pending s0 @ [\<lparr>upsert_id = i, upsert_row = r, upsert_fails = False\<rparr>]"
    and "pages_tbl s' = pages_tbl s0"
  shows "map_of (pages_tbl (settled s')) = (map_of (pages_tbl (settled s0)))(i \<mapsto> r)"
  using settled_snoc [OF assms] by (simp add: apply_upsert_def update_conv')

text \<open>
  C5. When a document is reprocessed and every step succeeds, the upsert issued for it
  carries the \<open>last_edited_time\<close> of the page retrieved after the update of the word
  count (in the world the update left), and the computed word count; once the queued
  upserts have completed, the row of the document is that one and the other rows are
  what they would have been.
\<close>

theorem reprocess_stores_post_write_time:
  defines "s0 \<equiv> \<lambda>env s pg. complete env (SelectTime (page_id pg)) s"
  assumes "\<not> sqlite_error env (world s) (SelectTime (page_id pg))"
    and "\<not> already_crawled env
             (map_option last_edited_time (map_of (pages_tbl (s0 env s pg)) (page_id pg)))
             (page_last_edited_time pg)"
    and "retrieveBlockChildren env (world s) depth (page_id pg) = Returned blocks"
    and "countWordsInBlocks (unicode_class env) blocks = Inr wordCount"
    and "pages_update env (world s) (page_id pg) wordCount = (None, w')"
    and "pages_retrieve env w' (page_id pg) = Inr updatedPage"
    and "\<not> sqlite_error env w' (Upsert (page_id pg))"
  shows "\<exists>s'. process_page env depth s pg = Done s' \<and> world s' = w' \<and>
           pages_tbl s' = pages_tbl (s0 env s pg) \<and>
           pending s' = pending (s0 env s pg) @
             [\<lparr>upsert_id = page_id pg,
               upsert_row = \<lparr>last_edited_time = page_last_edited_time updatedPage,
                             word_count = wordCount\<rparr>,
               upsert_fails = False\<rparr>] \<and>
           map_of (pages_tbl (settled s')) (page_id pg)
             = Some \<lparr>last_edited_time = page_last_edited_time updatedPage, word_count = wordCount\<rparr> \<and>
           (\<forall>k. k \<noteq> page_id pg \<longrightarrow>
              map_of (pages_tbl (settled s')) k = map_of (pages_tbl (settled (s0 env s pg))) k)"
proof -
  let ?s0 = "complete env (SelectTime (page_id pg)) s"
  let ?s2 = "console_log (WordCountUpdated (page_url pg))
               (updatePageWordCount env ?s0 (page_id pg) wordCount)"
  let ?s' = "updateSQLiteDatabase env ?s2 (page_id pg) (page_last_edited_time updatedPage) wordCount"
  have lk: "getStoredLastEditedTime env ?s0 (page_id pg)
      = Inr (map_option last_edited_time (map_of (pages_tbl ?s0) (page_id pg)))"
    using assms(2) by (simp add: getStoredLastEditedTime_ok complete_simps)
  have nc: "\<not> already_crawled env
             (map_option last_edited_time (map_of (pages_tbl ?s0) (page_id pg)))
             (page_last_edited_time pg)"
    using assms(3) by (simp add: s0_def)
  have w2: "world ?s2 = w'"
    using assms(6) by (simp add: console_log_simps updatePageWordCount_simps complete_simps)
  have d: "process_page env depth s pg = Done ?s'"
    unfolding process_page_reprocess [OF lk nc assms(4,5)] using assms(7) by (simp add: w2)
  have w: "world ?s' = w'" by (simp add: updateSQLiteDatabase_simps w2)
  have t: "pages_tbl ?s' = pages_tbl ?s0"
    by (simp add: updateSQLiteDatabase_simps console_log_simps updatePageWordCount_simps)
  have p: "pending ?s' = pending ?s0 @
             [\<lparr>upsert_id = page_id pg,
               upsert_row = \<lparr>last_edited_time = page_last_edited_time updatedPage,
                             word_count = wordCount\<rparr>,
               upsert_fails = False\<rparr>]"
    using assms(6,8)
    by (simp add: updateSQLiteDatabase_simps console_log_simps updatePageWordCount_simps
        complete_simps)
  from settled_snoc_row [OF p t]
  have m: "map_of (pages_tbl (settled ?s')) = (map_of (pages_tbl (settled ?s0)))
      (page_id pg \<mapsto> \<lparr>last_edited_time = page_last_edited_time updatedPage, word_count = wordCount\<rparr>)" .
  show ?thesis
    unfolding s0_def using d w t p by (simp add: m)
qed

theorem reprocess_stores_post_write_time_witness:
  "(\<exists>s'. process_page (demo_env []) 3 demo_state0 (demo_page demo_world0 ''doc1'') = Done s' \<and>
         pending s' = [\<lparr>upsert_id = ''doc1'',
                        upsert_row = \<lparr>last_edited_time = time2, word_count = 10\<rparr>,
                        upsert_fails = False\<rparr>] \<and>
         map_of (pages_tbl (settled s')) ''doc1''
           = Some \<lparr>last_edited_time = time2, word_count = 10\<rparr>) \<and>
   page_last_edited_time (demo_page demo_world0 ''doc1'') = time1 \<and> time1 \<noteq> time2"
proof -
  let ?pg = "demo_page demo_world0 ''doc1''"
  let ?w = "demo_world0\<lparr>edited := AList.update ''doc1'' time2 (edited demo_world0),
                        written := AList.update ''doc1'' 10 (written demo_world0)\<rparr>"
  have id: "page_id ?pg = ''doc1''" by (simp add: demo_page_def)
  have w0: "world demo_state0 = demo_world0" by (simp add: demo_state0_def)
  have c: "complete (demo_env []) st demo_state0 = demo_state0" for st
    by (rule complete_no_pending) (simp add: demo_state0_def)
  have 1: "\<not> sqlite_error (demo_env []) (world demo_state0) (SelectTime (page_id ?pg))"
    by (simp add: demo_env_def)
  have 2: "\<not> already_crawled (demo_env [])
        (map_option last_edited_time
           (map_of (pages_tbl (complete (demo_env []) (SelectTime (page_id ?pg)) demo_state0))
              (page_id ?pg)))
        (page_last_edited_time ?pg)"
    unfolding c by (simp add: demo_state0_def already_crawled_def)
  have 3: "retrieveBlockChildren (demo_env []) (world demo_state0) 3 (page_id ?pg)
        = Returned [block_A, block_B, block_C]"
    by (simp add: id w0 demo_walk_doc1)
  have 4: "countWordsInBlocks (unicode_class (demo_env [])) [block_A, block_B, block_C] = Inr 10"
    by (rule demo_count_doc1)
  have 5: "pages_update (demo_env []) (world demo_state0) (page_id ?pg) 10 = (None, ?w)"
    by (simp add: id w0 demo_env_def)
  have 6: "pages_retrieve (demo_env []) ?w (page_id ?pg) = Inr (demo_page ?w ''doc1'')"
    by (simp add: id demo_env_def)
  have 7: "\<not> sqlite_error (demo_env []) ?w (Upsert (page_id ?pg))"
    by (simp add: demo_env_def)
  have t: "page_last_edited_time (demo_page ?w ''doc1'') = time2"
    by (simp add: demo_page_def demo_world0_def)
  have p0: "pending demo_state0 = []" by (simp add: demo_state0_def)
  have "page_last_edited_time ?pg = time1" by (simp add: demo_page_def demo_world0_def)
  moreover have "time1 \<noteq> time2" by (simp add: time1_def time2_def)
  ultimately show ?thesis
    using reprocess_stores_post_write_time [OF 1 2 3 4 5 6 7] by (auto simp: id t c p0)
qed

section \<open>Failures during a run\<close>

lemma process_pages_append:
  "process_pages env depth s (pre @ rest) =
     (case process_pages env depth s pre of
        Done s' \<Rightarrow> process_pages env depth s' rest
      | Threw e s' \<Rightarrow> Threw e s'
      | OutOfFuel \<Rightarrow> OutOfFuel)"
  by (induction pre arbitrary: s) (auto split: outcome.splits)

lemma process_page_traversal_throws:
  assumes "\<not> sqlite_error env (world s) (SelectTime (page_id pg))"
    and "\<not> already_crawled env
             (map_option last_edited_time
                (map_of (pages_tbl (complete env (SelectTime (page_id pg)) s)) (page_id pg)))
             (page_last_edited_time pg)"
    and "retrieveBlockChildren env (world s) depth (page_id pg) = Thrown e"
  shows "process_page env depth s pg = Threw e (complete env (SelectTime (page_id pg)) s)"
  using assms by (simp add: process_page_def Let_def getStoredLastEditedTime_ok complete_simps)

lemma processDatabasePages_catches:
  "query_loop env depth n s None = Threw e s1 \<Longrightarrow>
   processDatabasePages env depth n s = Done (s1\<lparr>console := console s1 @ [FailedToProcess e]\<rparr>)"
  by (simp add: processDatabasePages_def try_block_def console_log_def)

text \<open>
  C2, as the code has it. A failed traversal of a document is not caught per document: it
  leaves the state in which the lookup of the document ran as it was (no update of the
  remote, no upsert issued, the row of the document untouched), ends the loop over the
  pages and the loop over the responses at once, and is caught by the only \<open>catch\<close> of
  \<open>processDatabasePages\<close>, which logs it. No later document is processed and no history
  entry is appended.
\<close>

theorem traversal_failure_aborts_run:
  defines "s0 \<equiv> \<lambda>env s pg. complete env (SelectTime (page_id pg)) s"
  assumes "\<not> sqlite_error env (world s1) (SelectTime (page_id pg))"
    and "\<not> already_crawled env
             (map_option last_edited_time (map_of (pages_tbl (s0 env s1 pg)) (page_id pg)))
             (page_last_edited_time pg)"
    and "retrieveBlockChildren env (world s1) depth (page_id pg) = Thrown e"
  shows "process_pages env depth s1 (pg # post) = Threw e (s0 env s1 pg) \<and>
    (\<forall>s c n response pre.
        databases_query env (world s) c = Inr response \<and> results response = pre @ pg # post \<and>
        process_pages env depth s pre = Done s1
        \<longrightarrow> query_loop env depth (Suc n) s c = Threw e (s0 env s1 pg)) \<and>
    (\<forall>s n. query_loop env depth n s None = Threw e (s0 env s1 pg)
        \<longrightarrow> processDatabasePages env depth n s
              = Done ((s0 env s1 pg)\<lparr>console := console (s0 env s1 pg) @ [FailedToProcess e]\<rparr>)) \<and>
    (pending s1 = [] \<longrightarrow> s0 env s1 pg = s1)"
proof (intro conjI allI impI)
  have pp: "process_page env depth s1 pg = Threw e (s0 env s1 pg)"
    unfolding s0_def using assms(2,3,4) unfolding s0_def by (rule process_page_traversal_throws)
  then show a: "process_pages env depth s1 (pg # post) = Threw e (s0 env s1 pg)" by simp
  show "query_loop env depth (Suc n) s c = Threw e (s0 env s1 pg)"
    if "databases_query env (world s) c = Inr response \<and> results response = pre @ pg # post \<and>
        process_pages env depth s pre = Done s1" for s c n response pre
    using that a by (simp add: process_pages_append)
  show "processDatabasePages env depth n s
      = Done ((s0 env s1 pg)\<lparr>console := console (s0 env s1 pg) @ [FailedToProcess e]\<rparr>)"
    if "query_loop env depth n s None = Threw e (s0 env s1 pg)" for s n
    using that by (rule processDatabasePages_catches)
  show "s0 env s1 pg = s1" if "pending s1 = []"
    using that by (simp add: s0_def complete_no_pending)
qed

theorem traversal_failure_aborts_run_witness:
  "processDatabasePages (demo_env [FailChildren ''doc1'']) 3 (Suc 2) demo_state0
     = Done (demo_state0\<lparr>console := console demo_state0 @ [FailedToProcess RemoteError]\<rparr>)"
proof -
  let ?env = "demo_env [FailChildren ''doc1'']"
  let ?pg = "demo_page (world demo_state0) ''doc1''"
  let ?resp = "\<lparr>results = [?pg, demo_page (world demo_state0) ''doc2''],
                has_more = True, next_cursor = Some ''cursor1''\<rparr>"
  have 1: "\<not> sqlite_error ?env (world demo_state0) (SelectTime (page_id ?pg))"
    by (simp add: demo_env_def)
  have c: "complete ?env st demo_state0 = demo_state0" for st
    by (rule complete_no_pending) (simp add: demo_state0_def)
  have 2: "\<not> already_crawled ?env
      (map_option last_edited_time
         (map_of (pages_tbl (complete ?env (SelectTime (page_id ?pg)) demo_state0)) (page_id ?pg)))
      (page_last_edited_time ?pg)"
    unfolding c by (simp add: demo_state0_def demo_page_def already_crawled_def)
  have 3: "retrieveBlockChildren ?env (world demo_state0) 3 (page_id ?pg) = Thrown RemoteError"
    by (simp add: demo_page_def demo_state0_def demo_walk_doc1)
  have q: "databases_query ?env (world demo_state0) None = Inr ?resp"
    by (simp add: demo_env_def)
  have r: "results ?resp = [] @ ?pg # [demo_page (world demo_state0) ''doc2'']" by simp
  have p: "process_pages ?env 3 demo_state0 [] = Done demo_state0" by simp
  from traversal_failure_aborts_run [OF 1 2 3, of "[demo_page (world demo_state0) ''doc2'']"] q r p
  have l: "query_loop ?env 3 (Suc 2) demo_state0 None
      = Threw RemoteError (complete ?env (SelectTime (page_id ?pg)) demo_state0)"
    by blast
  from traversal_failure_aborts_run [OF 1 2 3, of "[demo_page (world demo_state0) ''doc2'']"] l
  have "processDatabasePages ?env 3 (Suc 2) demo_state0
      = Done ((complete ?env (SelectTime (page_id ?pg)) demo_state0)
          \<lparr>console := console (complete ?env (SelectTime (page_id ?pg)) demo_state0)
             @ [FailedToProcess RemoteError]\<rparr>)"
    by blast
  then show ?thesis unfolding c .
qed

text \<open>
  C2 as stated fails: with the traversal of \<open>doc1\<close> failing, \<open>doc2\<close> (whose blocks can
  be listed) and \<open>doc3\<close> are not processed, and the run ends with the state it started with.
\<close>

theorem traversal_failure_counterexample:
  "retrieveBlockChildren (demo_env [FailChildren ''doc1'']) (world demo_state0) 3 ''doc1''
     = Thrown RemoteError \<and>
   retrieveBlockChildren (demo_env [FailChildren ''doc1'']) (world demo_state0) 3 ''doc2''
     = Returned [block_D] \<and>
   processDatabasePages (demo_env [FailChildren ''doc1'']) 3 3 demo_state0
     = Done (demo_state0\<lparr>console := [FailedToProcess RemoteError]\<rparr>) \<and>
   map_of (pages_tbl demo_state0) ''doc2'' = None \<and>
   word_count_history demo_state0 = []"
  by code_simp

section \<open>A failed write-back\<close>

text \<open>
  C4, as the code has it. \<open>updatePageWordCount\<close> catches and logs a failed update, and
  the processing of the document goes on: the page is retrieved and an upsert of its row
  is issued, with the retrieved time and the computed word count. Once that upsert has
  completed the row is written, and a next run that lists the document with that same
  time skips it.
\<close>

theorem write_failure_still_upserts:
  defines "s0 \<equiv> \<lambda>env s pg. complete env (SelectTime (page_id pg)) s"
  assumes "\<not> sqlite_error env (world s) (SelectTime (page_id pg))"
    and "\<not> already_crawled env
             (map_option last_edited_time (map_of (pages_tbl (s0 env s pg)) (page_id pg)))
             (page_last_edited_time pg)"
    and "retrieveBlockChildren env (world s) depth (page_id pg) = Returned blocks"
    and "countWordsInBlocks (unicode_class env) blocks = Inr wordCount"
    and "pages_update env (world s) (page_id pg) wordCount = (Some e, w')"
    and "pages_retrieve env w' (page_id pg) = Inr updatedPage"
    and "\<not> sqlite_error env w' (Upsert (page_id pg))"
  shows "\<exists>s'. process_page env depth s pg = Done s' \<and> world s' = w' \<and>
           console s' = console (s0 env s pg) @ [FailedToUpdateWordCount (page_id pg),
                                     WordCountUpdated (page_url pg)] \<and>
           pending s' = pending (s0 env s pg) @
             [\<lparr>upsert_id = page_id pg,
               upsert_row = \<lparr>last_edited_time = page_last_edited_time updatedPage,
                             word_count = wordCount\<rparr>,
               upsert_fails = False\<rparr>] \<and>
           map_of (pages_tbl (settled s')) (page_id pg)
             = Some \<lparr>last_edited_time = page_last_edited_time updatedPage, word_count = wordCount\<rparr> \<and>
           (\<forall>pg'. page_id pg' = page_id pg \<and>
                  page_last_edited_time pg' = page_last_edited_time updatedPage \<and>
                  new_Date env (page_last_edited_time updatedPage) \<noteq> None \<and>
                  \<not> sqlite_error env w' (SelectTime (page_id pg))
                \<longrightarrow> process_page env depth (settled s') pg'
                      = Done ((settled s')\<lparr>console := console (settled s') @
                                 [AlreadyCrawled (page_url pg')]\<rparr>))"
proof -
  let ?s0 = "complete env (SelectTime (page_id pg)) s"
  let ?s2 = "console_log (WordCountUpdated (page_url pg))
                     (updatePageWordCount env ?s0 (page_id pg) wordCount)"
  let ?s' = "updateSQLiteDatabase env ?s2 (page_id pg) (page_last_edited_time updatedPage) wordCount"
  let ?row = "\<lparr>last_edited_time = page_last_edited_time updatedPage, word_count = wordCount\<rparr>"
  have lk: "getStoredLastEditedTime env ?s0 (page_id pg)
      = Inr (map_option last_edited_time (map_of (pages_tbl ?s0) (page_id pg)))"
    using assms(2) by (simp add: getStoredLastEditedTime_ok complete_simps)
  have nc: "\<not> already_crawled env
             (map_option last_edited_time (map_of (pages_tbl ?s0) (page_id pg)))
             (page_last_edited_time pg)"
    using assms(3) by (simp add: s0_def)
  have w2: "world ?s2 = w'"
    using assms(6) by (simp add: console_log_simps updatePageWordCount_simps complete_simps)
  have d: "process_page env depth s pg = Done ?s'"
    unfolding process_page_reprocess [OF lk nc assms(4,5)] using assms(7) by (simp add: w2)
  have w: "world ?s' = w'" by (simp add: updateSQLiteDatabase_simps w2)
  have c: "console ?s' = console ?s0 @ [FailedToUpdateWordCount (page_id pg),
                                     WordCountUpdated (page_url pg)]"
    using assms(6) by (simp add: updateSQLiteDatabase_simps console_log_simps
        updatePageWordCount_simps complete_simps)
  have t: "pages_tbl ?s' = pages_tbl ?s0"
    by (simp add: updateSQLiteDatabase_simps console_log_simps updatePageWordCount_simps)
  have p: "pending ?s' = pending ?s0 @
             [\<lparr>upsert_id = page_id pg, upsert_row = ?row, upsert_fails = False\<rparr>]"
    using assms(6,8)
    by (simp add: updateSQLiteDatabase_simps console_log_simps updatePageWordCount_simps
        complete_simps)
  from settled_snoc_row [OF p t]
  have r: "map_of (pages_tbl (settled ?s')) (page_id pg) = Some ?row" by simp
  have n: "process_page env depth (settled ?s') pg'
        = Done ((settled ?s')\<lparr>console := console (settled ?s') @ [AlreadyCrawled (page_url pg')]\<rparr>)"
    if h: "page_id pg' = page_id pg \<and>
           page_last_edited_time pg' = page_last_edited_time updatedPage \<and>
           new_Date env (page_last_edited_time updatedPage) \<noteq> None \<and>
           \<not> sqlite_error env w' (SelectTime (page_id pg))" for pg'
  proof -
    have cs: "complete env (SelectTime (page_id pg')) (settled ?s') = settled ?s'"
      by (rule complete_no_pending) (simp add: settled_simps)
    have lk': "getStoredLastEditedTime env (complete env (SelectTime (page_id pg')) (settled ?s'))
                 (page_id pg') = Inr (Some (page_last_edited_time updatedPage))"
      unfolding cs using h r by (simp add: getStoredLastEditedTime_def settled_simps w)
    have "already_crawled env (Some (page_last_edited_time updatedPage)) (page_last_edited_time pg')"
      using h by (auto simp: already_crawled_def new_Date_def date_le_def split: if_splits)
    from process_page_skip [OF lk' this] show ?thesis
      unfolding cs by (simp add: console_log_def)
  qed
  show ?thesis unfolding s0_def using d w c p r n by blast
qed

theorem write_failure_still_upserts_witness:
  "\<exists>s'. process_page (demo_env [FailUpdate ''doc1'']) 3 demo_state0
           (demo_page (world demo_state0) ''doc1'') = Done s' \<and>
        map_of (pages_tbl (settled s')) ''doc1''
          = Some \<lparr>last_edited_time = time1, word_count = 10\<rparr> \<and>
        process_page (demo_env [FailUpdate ''doc1'']) 3 (settled s')
            (demo_page (world demo_state0) ''doc1'')
          = Done ((settled s')\<lparr>console := console (settled s') @
                     [AlreadyCrawled ''https://www.notion.so/doc1'']\<rparr>)"
proof -
  let ?env = "demo_env [FailUpdate ''doc1'']"
  let ?pg = "demo_page (world demo_state0) ''doc1''"
  have id: "page_id ?pg = ''doc1''" "page_url ?pg = ''https://www.notion.so/doc1''"
    "page_last_edited_time ?pg = time1"
    by (simp_all add: demo_page_def demo_state0_def demo_world0_def)
  have w0: "world demo_state0 = demo_world0" by (simp add: demo_state0_def)
  have c: "complete ?env st demo_state0 = demo_state0" for st
    by (rule complete_no_pending) (simp add: demo_state0_def)
  have 1: "\<not> sqlite_error ?env (world demo_state0) (SelectTime (page_id ?pg))"
    by (simp add: demo_env_def)
  have 2: "\<not> already_crawled ?env
        (map_option last_edited_time
           (map_of (pages_tbl (complete ?env (SelectTime (page_id ?pg)) demo_state0)) (page_id ?pg)))
        (page_last_edited_time ?pg)"
    unfolding c by (simp add: demo_state0_def already_crawled_def demo_page_def)
  have 3: "retrieveBlockChildren ?env (world demo_state0) 3 (page_id ?pg)
        = Returned [block_A, block_B, block_C]"
    by (simp add: demo_page_def w0 demo_walk_doc1)
  have 4: "countWordsInBlocks (unicode_class ?env) [block_A, block_B, block_C] = Inr 10"
    by (rule demo_count_doc1)
  have 5: "pages_update ?env (world demo_state0) (page_id ?pg) 10 = (Some RemoteError, world demo_state0)"
    by (simp add: id demo_env_def)
  have 6: "pages_retrieve ?env (world demo_state0) (page_id ?pg) = Inr ?pg"
    by (simp add: id demo_env_def)
  have 7: "\<not> sqlite_error ?env (world demo_state0) (Upsert (page_id ?pg))"
    by (simp add: demo_env_def)
  have 8: "new_Date ?env (page_last_edited_time ?pg) \<noteq> None"
    by (simp add: id new_Date_def demo_env_def demo_dates_def time1_def)
  from write_failure_still_upserts [OF 1 2 3 4 5 6 7]
  obtain s' where d: "process_page ?env 3 demo_state0 ?pg = Done s'"
    and r: "map_of (pages_tbl (settled s')) (page_id ?pg)
        = Some \<lparr>last_edited_time = page_last_edited_time ?pg, word_count = 10\<rparr>"
    and n: "\<forall>pg'. page_id pg' = page_id ?pg \<and>
                  page_last_edited_time pg' = page_last_edited_time ?pg \<and>
                  new_Date ?env (page_last_edited_time ?pg) \<noteq> None \<and>
                  \<not> sqlite_error ?env (world demo_state0) (SelectTime (page_id ?pg))
                \<longrightarrow> process_page ?env 3 (settled s') pg'
                      = Done ((settled s')\<lparr>console := console (settled s') @
                                 [AlreadyCrawled (page_url pg')]\<rparr>)"
    by blast
  from n 8 1 have "process_page ?env 3 (settled s') ?pg
      = Done ((settled s')\<lparr>console := console (settled s') @ [AlreadyCrawled (page_url ?pg)]\<rparr>)"
    by blast
  with d r show ?thesis by (auto simp: id)
qed

text \<open>
  C4 as stated fails: with the update of \<open>doc1\<close> failing, the upsert of a row for \<open>doc1\<close>
  is issued all the same, and processing the document again, with that upsert completed,
  writes nothing more and skips it.
\<close>

theorem write_failure_counterexample:
  "pages_update (demo_env [FailUpdate ''doc1'']) (world demo_state0) ''doc1'' 10
     = (Some RemoteError, world demo_state0) \<and>
   map_of (pages_tbl demo_state0) ''doc1'' = None \<and>
   process_page (demo_env [FailUpdate ''doc1'']) 3 demo_state0 (demo_page (world demo_state0) ''doc1'')
     = Done (demo_state0\<lparr>pending := [\<lparr>upsert_id = ''doc1'',
             upsert_row = \<lparr>last_edited_time = time1, word_count = 10\<rparr>, upsert_fails = False\<rparr>],
          console := [FailedToUpdateWordCount ''doc1'',
                      WordCountUpdated ''https://www.notion.so/doc1'']\<rparr>) \<and>
   process_page (demo_env [FailUpdate ''doc1'']) 3
       (demo_state0\<lparr>pending := [\<lparr>upsert_id = ''doc1'',
             upsert_row = \<lparr>last_edited_time = time1, word_count = 10\<rparr>, upsert_fails = False\<rparr>],
          console := [FailedToUpdateWordCount ''doc1'',
                      WordCountUpdated ''https://www.notion.so/doc1'']\<rparr>)
       (demo_page (world demo_state0) ''doc1'')
     = Done (demo_state0\<lparr>pages_tbl := [(''doc1'', \<lparr>last_edited_time = time1, word_count = 10\<rparr>)],
          console := [FailedToUpdateWordCount ''doc1'',
                      WordCountUpdated ''https://www.notion.so/doc1'',
                      AlreadyCrawled ''https://www.notion.so/doc1'']\<rparr>)"
  by code_simp

section \<open>The history entry of a run\<close>

lemma process_page_history:
  "process_page env depth s pg = Done s' \<Longrightarrow> word_count_history s' = word_count_history s"
  by (auto simp: process_page_def Let_def console_log_simps updatePageWordCount_simps
      updateSQLiteDatabase_simps complete_simps split: sum.splits result.splits if_splits)

lemma process_pages_history:
  "process_pages env depth s pgs = Done s' \<Longrightarrow> word_count_history s' = word_count_history s"
proof (induction pgs arbitrary: s)
  case Nil
  then show ?case by simp
next
  case (Cons pg pgs)
  then show ?case
    by (auto split: outcome.splits dest: process_page_history)
qed

lemma query_loop_history:
  "query_loop env depth n s c = Done s' \<Longrightarrow> word_count_history s' = word_count_history s"
proof (induction n arbitrary: s c)
  case 0
  then show ?case by simp
next
  case (Suc n)
  then show ?case
    by (auto split: sum.splits outcome.splits if_splits dest: process_pages_history)
qed

text \<open>
  What a run appends when its loop completes and neither the sum query nor the insert
  fails: one entry, the sum over the rows of table \<open>pages\<close> as the sum query finds it,
  that is, without the rows of the upserts still in the queue.
\<close>

lemma run_appends_sum_of_completed_rows:
  assumes "query_loop env depth n s None = Done s1"
    and "\<not> sqlite_error env (world s1) SelectSum"
    and "\<not> sqlite_error env (world s1) InsertHistory"
  shows "processDatabasePages env depth n s
    = Done ((complete env SelectSum s1)
        \<lparr>word_count_history :=
           word_count_history s @ [total_words (pages_tbl (complete env SelectSum s1))],
         console := console (complete env SelectSum s1) @
           [TotalWordCountStored (total_words (pages_tbl (complete env SelectSum s1)))]\<rparr>)"
proof -
  have h: "word_count_history s1 = word_count_history s"
    using assms(1) by (rule query_loop_history)
  show ?thesis
    using assms h
    by (simp add: processDatabasePages_def try_block_def store_total_def Let_def
        getTotalWordCount_def select_sum_def storeTotalWordCount_def console_log_def
        total_words_def complete_simps)
qed

text \<open>
  C6. The claim fails on the code: the upsert of the last document is issued without
  being awaited, and the sum query can run before SQLite has completed it. Here the loop
  completes with the upsert of \<open>doc3\<close> (2 words) still in the queue; the run appends the
  entry 12, while the rows of table \<open>pages\<close>, once that upsert has completed, sum to 14.
\<close>

theorem history_entry_misses_queued_upsert:
  "query_loop (demo_env [NotDoneBefore SelectSum]) 3 3 demo_state0 None
     = Done (demo_state1
         \<lparr>pages_tbl := [(''doc1'', \<lparr>last_edited_time = time2, word_count = 10\<rparr>),
                        (''doc2'', \<lparr>last_edited_time = time2, word_count = 2\<rparr>)],
          pending := [\<lparr>upsert_id = ''doc3'',
                       upsert_row = \<lparr>last_edited_time = time2, word_count = 2\<rparr>,
                       upsert_fails = False\<rparr>],
          word_count_history := [],
          console := [WordCountUpdated ''https://www.notion.so/doc1'',
                      WordCountUpdated ''https://www.notion.so/doc2'',
                      WordCountUpdated ''https://www.notion.so/doc3'']\<rparr>) \<and>
   processDatabasePages (demo_env [NotDoneBefore SelectSum]) 3 3 demo_state0
     = Done (demo_state1
         \<lparr>pages_tbl := [(''doc1'', \<lparr>last_edited_time = time2, word_count = 10\<rparr>),
                        (''doc2'', \<lparr>last_edited_time = time2, word_count = 2\<rparr>)],
          pending := [\<lparr>upsert_id = ''doc3'',
                       upsert_row = \<lparr>last_edited_time = time2, word_count = 2\<rparr>,
                       upsert_fails = False\<rparr>],
          word_count_history := [12],
          console := [WordCountUpdated ''https://www.notion.so/doc1'',
                      WordCountUpdated ''https://www.notion.so/doc2'',
                      WordCountUpdated ''https://www.notion.so/doc3'',
                      TotalWordCountStored 12]\<rparr>) \<and>
   settled (demo_state1
         \<lparr>pages_tbl := [(''doc1'', \<lparr>last_edited_time = time2, word_count = 10\<rparr>),
                        (''doc2'', \<lparr>last_edited_time = time2, word_count = 2\<rparr>)],
          pending := [\<lparr>upsert_id = ''doc3'',
                       upsert_row = \<lparr>last_edited_time = time2, word_count = 2\<rparr>,
                       upsert_fails = False\<rparr>],
          word_count_history := [12],
          console := [WordCountUpdated ''https://www.notion.so/doc1'',
                      WordCountUpdated ''https://www.notion.so/doc2'',
                      WordCountUpdated ''https://www.notion.so/doc3'',
                      TotalWordCountStored 12]\<rparr>)
     = demo_state1\<lparr>word_count_history := [12],
          console := [WordCountUpdated ''https://www.notion.so/doc1'',
                      WordCountUpdated ''https://www.notion.so/doc2'',
                      WordCountUpdated ''https://www.notion.so/doc3'',
                      TotalWordCountStored 12]\<rparr> \<and>
   total_words (pages_tbl demo_state1) = 14 \<and>
   processDatabasePages (demo_env []) 3 3 demo_state0 = Done demo_state1 \<and>
   word_count_history demo_state1 = [14]"
  by code_simp

section \<open>What the trigger observes\<close>

lemma processDatabasePages_never_throws:
  "processDatabasePages env depth n s \<noteq> Threw e s'"
  by (simp add: processDatabasePages_def split: outcome.splits)

lemma update_word_count_never_500:
  "update_word_count env depth n s \<noteq> Some (s', Status_500_error)"
  using processDatabasePages_never_throws [of env depth n s]
  by (auto simp: update_word_count_def split: outcome.splits)

text \<open>
  C3. \<open>processDatabasePages\<close> catches every error of a run itself, so the handler of
  \<open>/update_word_count\<close> never reaches its own \<open>catch\<close>: a run whose listing, sum query
  or history insert fails is answered with the success message.
\<close>

theorem listing_failure_reported_as_success:
  "databases_query (demo_env [FailQuery]) (world demo_state0) None = Inl RemoteError \<and>
   update_word_count (demo_env [FailQuery]) 3 3 demo_state0
     = Some (demo_state0\<lparr>console := [FailedToProcess RemoteError]\<rparr>, Json_message) \<and>
   update_word_count (demo_env [FailSqlite SelectSum]) 3 3 demo_state0
     = Some (demo_state1\<lparr>word_count_history := [],
          console := [WordCountUpdated ''https://www.notion.so/doc1'',
                      WordCountUpdated ''https://www.notion.so/doc2'',
                      WordCountUpdated ''https://www.notion.so/doc3'',
                      FailedToProcess SqliteError]\<rparr>, Json_message) \<and>
   update_word_count (demo_env [FailSqlite InsertHistory]) 3 3 demo_state0
     = Some (demo_state1\<lparr>word_count_history := [],
          console := [WordCountUpdated ''https://www.notion.so/doc1'',
                      WordCountUpdated ''https://www.notion.so/doc2'',
                      WordCountUpdated ''https://www.notion.so/doc3'',
                      FailedToProcess SqliteError]\<rparr>, Json_message)"
  by code_simp

end

